theory Spec2Isabelle
  imports Main
begin

section \<open>The scheduler of \<^verbatim>\<open>schedule/__init__.py\<close>\<close>

text \<open>
  The module is modelled under the semantics of Python 3 (3.5 to 3.10): comparing or
  subtracting \<^verbatim>\<open>None\<close> and a \<^verbatim>\<open>datetime\<close> raises \<^verbatim>\<open>TypeError\<close>, every
  \<^verbatim>\<open>datetime.time\<close> is truthy, and \<^verbatim>\<open>random.sample\<close> accepts a set.
  Logging is left out: the messages are formatted lazily, inside the logging module, which
  does not let an exception of the formatting escape.
\<close>

subsection \<open>Exceptions\<close>

text \<open>
  The exceptions the module can raise by itself, and \<open>UserError\<close> for whatever a work unit
  raises (the number tells one such exception from another).
\<close>

datatype error = AssertionError | TypeError | ValueError | OverflowError | AttributeError
  | UserError nat

subsection \<open>Dates and times\<close>

text \<open>
  A \<^verbatim>\<open>datetime\<close> is the number of microseconds since the midnight that begins day 0 of the
  proleptic Gregorian calendar, so that \<open>date\<close> is \<^verbatim>\<open>toordinal()\<close> (day 1 is
  0001-01-01, a Monday). A \<^verbatim>\<open>datetime.time\<close> is the number of microseconds since midnight
  and a \<^verbatim>\<open>timedelta\<close> a number of microseconds.
\<close>

type_synonym datetime = int
type_synonym time = int
type_synonym timedelta = int

definition us_per_day :: int where
  "us_per_day = 86400000000"

definition date :: "datetime \<Rightarrow> int" where
  "date d = d div us_per_day"

definition time_of :: "datetime \<Rightarrow> time" where
  "time_of d = d mod us_per_day"

definition time_hour :: "time \<Rightarrow> int" where
  "time_hour t = t div 3600000000"

definition time_minute :: "time \<Rightarrow> int" where
  "time_minute t = (t div 60000000) mod 60"

definition time_second :: "time \<Rightarrow> int" where
  "time_second t = (t div 1000000) mod 60"

text \<open>\<^verbatim>\<open>datetime(...)\<close> on the day with ordinal \<open>ord\<close>, and \<^verbatim>\<open>time(h, m, s)\<close>.\<close>

definition mk_time :: "int \<Rightarrow> int \<Rightarrow> int \<Rightarrow> time" where
  "mk_time h m s = ((h * 60 + m) * 60 + s) * 1000000"

definition mk_datetime :: "int \<Rightarrow> time \<Rightarrow> datetime" where
  "mk_datetime ord t = ord * us_per_day + t"

text \<open>\<^verbatim>\<open>d.replace(hour=h, minute=m, second=s, microsecond=0)\<close>\<close>

definition replace_hms :: "datetime \<Rightarrow> int \<Rightarrow> int \<Rightarrow> int \<Rightarrow> datetime" where
  "replace_hms d h m s = mk_datetime (date d) (mk_time h m s)"

text \<open>
  \<^verbatim>\<open>isoweekday()\<close>: Monday is 1 and Sunday is 7.
\<close>

definition isoweekday :: "datetime \<Rightarrow> int" where
  "isoweekday d = (if date d mod 7 = 0 then 7 else date d mod 7)"

text \<open>
  \<^verbatim>\<open>datetime.min\<close> is on day 1 and \<^verbatim>\<open>datetime.max\<close> on day 3652059 (9999-12-31);
  arithmetic that leaves the range raises \<^verbatim>\<open>OverflowError\<close>, and so does a
  \<^verbatim>\<open>timedelta\<close> of more than 999999999 days.
\<close>

definition datetime_add :: "datetime \<Rightarrow> timedelta \<Rightarrow> error + datetime" where
  "datetime_add d td =
     (let r = d + td
      in if 1 \<le> date r \<and> date r \<le> 3652059 then Inr r else Inl OverflowError)"

datatype unit_name = Seconds | Minutes | Hours | Days | Weeks

fun unit_us :: "unit_name \<Rightarrow> int" where
  "unit_us Seconds = 1000000"
| "unit_us Minutes = 60000000"
| "unit_us Hours = 3600000000"
| "unit_us Days = 86400000000"
| "unit_us Weeks = 604800000000"

text \<open>\<^verbatim>\<open>timedelta(**{unit: n})\<close> for an integer \<open>n\<close>.\<close>

definition timedelta :: "unit_name \<Rightarrow> int \<Rightarrow> error + timedelta" where
  "timedelta u n =
     (let td = n * unit_us u
      in if \<bar>td div us_per_day\<bar> > 999999999 then Inl OverflowError else Inr td)"

subsection \<open>The world outside the module\<close>

text \<open>
  The clock, the random source and the work units are parameters. \<open>clock E k\<close> is what the
  \<open>k\<close>-th call of \<^verbatim>\<open>datetime.datetime.now()\<close> returns and \<open>rnd E k\<close> the raw number behind
  the \<open>k\<close>-th random draw; \<open>outcome E f k\<close> is the exception raised by the work unit \<open>f\<close>
  at the \<open>k\<close>-th invocation by its job, \<open>None\<close> when it returns. Work units are taken not to
  reach back into the scheduler. The \<open>world\<close> counts the clock readings and the draws made
  so far.
\<close>

record env =
  clock :: "nat \<Rightarrow> datetime"
  rnd :: "nat \<Rightarrow> nat"
  outcome :: "nat \<Rightarrow> nat \<Rightarrow> error option"

record world =
  ticks :: nat
  draws :: nat

definition now :: "env \<Rightarrow> world \<Rightarrow> datetime \<times> world" where
  "now E w = (clock E (ticks w), w\<lparr>ticks := Suc (ticks w)\<rparr>)"

text \<open>
  \<^verbatim>\<open>random.randint(a, b)\<close> is \<^verbatim>\<open>randrange(a, b + 1)\<close>, which raises \<^verbatim>\<open>ValueError\<close> on
  an empty range.
\<close>

definition randint :: "env \<Rightarrow> int \<Rightarrow> int \<Rightarrow> world \<Rightarrow> (error + int) \<times> world" where
  "randint E a b w =
     (if b + 1 - a \<le> 0 then (Inl ValueError, w)
      else (Inr (a + int (rnd E (draws w)) mod (b + 1 - a)), w\<lparr>draws := Suc (draws w)\<rparr>))"

text \<open>
  \<^verbatim>\<open>random.sample(day, 1)[0]\<close>: one element of the set, \<^verbatim>\<open>ValueError\<close> when the sample
  is larger than the population.
\<close>

definition sample1 :: "env \<Rightarrow> int set \<Rightarrow> world \<Rightarrow> (error + int) \<times> world" where
  "sample1 E day w =
     (let population = sorted_list_of_set day
      in if length population < 1 then (Inl ValueError, w)
         else (Inr (population ! (rnd E (draws w) mod length population)),
               w\<lparr>draws := Suc (draws w)\<rparr>))"

subsection \<open>Strings\<close>

text \<open>\<^verbatim>\<open>s.split(sep)\<close> for a separator of one character, \<^verbatim>\<open>s.lower()\<close> and
  \<^verbatim>\<open>n.startswith(d)\<close> on strings of ASCII characters.\<close>

fun str_split :: "char \<Rightarrow> string \<Rightarrow> string list" where
  "str_split sep [] = [[]]"
| "str_split sep (c # cs) =
     (if c = sep then [] # str_split sep cs
      else (case str_split sep cs of [] \<Rightarrow> [[c]] | p # ps \<Rightarrow> (c # p) # ps))"

definition lower_char :: "char \<Rightarrow> char" where
  "lower_char c =
     (case map_of (zip ''ABCDEFGHIJKLMNOPQRSTUVWXYZ'' ''abcdefghijklmnopqrstuvwxyz'') c of
        None \<Rightarrow> c
      | Some l \<Rightarrow> l)"

definition str_lower :: "string \<Rightarrow> string" where
  "str_lower s = map lower_char s"

definition startswith :: "string \<Rightarrow> string \<Rightarrow> bool" where
  "startswith n d = (take (length d) n = d)"

subsection \<open>Job\<close>

text \<open>
  The fields of \<^verbatim>\<open>Job.__init__\<close>; \<^verbatim>\<open>between_times\<close> is \<open>None\<close> for the empty tuple.
  \<open>calls\<close> is not a field of the source: it counts the invocations of the job's work unit
  by \<^verbatim>\<open>run\<close>, so that "the work unit was not invoked" can be stated.
\<close>

record job =
  interval :: int
  job_func :: "nat option"
  unit :: "unit_name option"
  at_time :: "time option"
  between_times :: "(datetime \<times> datetime) option"
  run_days :: "int set list"
  start_run :: "datetime option"
  last_run :: "datetime option"
  next_run :: "datetime option"
  period :: "timedelta option"
  calls :: nat

definition Job :: "int \<Rightarrow> job" where
  "Job n = \<lparr>interval = n, job_func = None, unit = None, at_time = None,
            between_times = None, run_days = [], start_run = None, last_run = None,
            next_run = None, period = None, calls = 0\<rparr>"

definition WEEKDAYS :: "(string \<times> int) list" where
  "WEEKDAYS = [(''sunday'', 0), (''monday'', 1), (''tuesday'', 2), (''wednesday'', 3),
               (''thursday'', 4), (''friday'', 5), (''saturday'', 6)]"

subsubsection \<open>The unit accessors\<close>

text \<open>A configuration call returns the job, or the exception it raises.\<close>

definition seconds :: "job \<Rightarrow> error + job" where
  "seconds j = Inr (j\<lparr>unit := Some Seconds\<rparr>)"

definition second :: "job \<Rightarrow> error + job" where
  "second j = (if interval j = 1 then seconds j else Inl AssertionError)"

definition minutes :: "job \<Rightarrow> error + job" where
  "minutes j = Inr (j\<lparr>unit := Some Minutes\<rparr>)"

definition minute :: "job \<Rightarrow> error + job" where
  "minute j = (if interval j = 1 then minutes j else Inl AssertionError)"

definition hours :: "job \<Rightarrow> error + job" where
  "hours j = Inr (j\<lparr>unit := Some Hours\<rparr>)"

definition hour :: "job \<Rightarrow> error + job" where
  "hour j = (if interval j = 1 then hours j else Inl AssertionError)"

definition days :: "job \<Rightarrow> error + job" where
  "days j = Inr (j\<lparr>unit := Some Days\<rparr>)"

definition day :: "job \<Rightarrow> error + job" where
  "day j = (if interval j = 1 then days j else Inl AssertionError)"



subsubsection \<open>\<^verbatim>\<open>Job.on\<close>\<close>

text \<open>
  \<open>day_or d\<close> is the set built for one argument of \<^verbatim>\<open>on\<close>: for each part between
  \<^verbatim>\<open>|\<close>, the number of every weekday whose name starts with the part in lower case.
  An argument that gives the empty set is not appended.
\<close>

definition day_or :: "string \<Rightarrow> int set" where
  "day_or d =
     set [i. p \<leftarrow> str_split (CHR ''|'') d, (n, i) \<leftarrow> WEEKDAYS, startswith n (str_lower p)]"

definition on :: "string list \<Rightarrow> job \<Rightarrow> error + job" where
  "on ds j = Inr (j\<lparr>run_days := filter (\<lambda>g. g \<noteq> {}) (map day_or ds)\<rparr>)"

subsubsection \<open>\<^verbatim>\<open>Job.at\<close>, \<^verbatim>\<open>Job.between\<close> and \<^verbatim>\<open>Job.starting\<close>\<close>

definition is_digit :: "char \<Rightarrow> bool" where
  "is_digit c = (let n = (of_char c :: nat) in 48 \<le> n \<and> n \<le> 57)"

definition digit_val :: "char \<Rightarrow> int" where
  "digit_val c = of_char c - 48"


definition digits_value :: "string \<Rightarrow> int" where
  "digits_value s = foldl (\<lambda>v c. 10 * v + digit_val c) 0 s"



text \<open>A list comprehension whose element expression can raise: the first exception wins.\<close>

fun collect :: "(error + 'a) list \<Rightarrow> error + 'a list" where
  "collect [] = Inr []"
| "collect (Inl e # rs) = Inl e"
| "collect (Inr x # rs) = (case collect rs of Inl e \<Rightarrow> Inl e | Inr xs \<Rightarrow> Inr (x # xs))"


text \<open>
  A field of \<^verbatim>\<open>strptime\<close>: one digit, or two digits that make a number up to \<open>mx\<close>
  and at least \<open>mn\<close> (the directives are the regular expressions
  \<^verbatim>\<open>2[0-3]|[0-1]\d|\d\<close> for \<^verbatim>\<open>%H\<close> and \<^verbatim>\<open>[0-5]\d|\d\<close> for \<^verbatim>\<open>%M\<close>, and the whole
  string has to be consumed).
\<close>

fun strp_field :: "int \<Rightarrow> int \<Rightarrow> string \<Rightarrow> int option" where
  "strp_field mn mx [a] =
     (if is_digit a \<and> mn \<le> digit_val a then Some (digit_val a) else None)"
| "strp_field mn mx [a, b] =
     (let v = 10 * digit_val a + digit_val b
      in if is_digit a \<and> is_digit b \<and> mn \<le> v \<and> v \<le> mx then Some v else None)"
| "strp_field mn mx s = None"

text \<open>\<^verbatim>\<open>datetime.datetime.strptime(t, '%H:%M')\<close>: the time on 1900-01-01, day 693596.\<close>

definition strptime_HM :: "string \<Rightarrow> error + datetime" where
  "strptime_HM t =
     (case map (\<lambda>(mx, s). strp_field 0 mx s) (zip [23, 59] (str_split (CHR '':'') t)) of
        [Some h, Some m] \<Rightarrow>
          if length (str_split (CHR '':'') t) = 2
          then Inr (mk_datetime 693596 (mk_time h m 0)) else Inl ValueError
      | _ \<Rightarrow> Inl ValueError)"

definition between :: "string \<Rightarrow> job \<Rightarrow> error + job" where
  "between time_str j =
     (case collect (map strptime_HM (str_split (CHR ''-'') time_str)) of
        Inl e \<Rightarrow> Inl e
      | Inr [start, end] \<Rightarrow> Inr (j\<lparr>between_times := Some (start, end)\<rparr>)
      | Inr _ \<Rightarrow> Inl ValueError)"

text \<open>
  The calendar of \<^verbatim>\<open>datetime\<close>: the ordinal of a date, and
  \<^verbatim>\<open>strptime(date_str, '%Y-%m-%d')\<close> (four digits, then a month and a day of one or two
  digits, which have to name a day of the calendar from year 1 on).
\<close>

definition is_leap :: "int \<Rightarrow> bool" where
  "is_leap y = (y mod 4 = 0 \<and> (y mod 100 \<noteq> 0 \<or> y mod 400 = 0))"

definition days_in_month :: "int \<Rightarrow> int \<Rightarrow> int" where
  "days_in_month y m =
     (if m = 2 \<and> is_leap y then 29
      else [31, 28, 31, 30, 31, 30, 31, 31, 30, 31, 30, 31] ! nat (m - 1))"

definition ymd2ord :: "int \<Rightarrow> int \<Rightarrow> int \<Rightarrow> int" where
  "ymd2ord y m d =
     (y - 1) * 365 + (y - 1) div 4 - (y - 1) div 100 + (y - 1) div 400
       + sum_list (map (days_in_month y) [1..m - 1]) + d"

text \<open>The day of \<^verbatim>\<open>%d\<close> can also be a space and a digit from 1 to 9.\<close>

definition strp_day :: "string \<Rightarrow> int option" where
  "strp_day s =
     (case s of
        [sp, c] \<Rightarrow>
          if sp = CHR '' '' \<and> is_digit c \<and> 1 \<le> digit_val c then Some (digit_val c)
          else strp_field 1 31 s
      | _ \<Rightarrow> strp_field 1 31 s)"

definition strptime_Ymd :: "string \<Rightarrow> error + datetime" where
  "strptime_Ymd s =
     (case str_split (CHR ''-'') s of
        [ys, ms, ds] \<Rightarrow>
          (if length ys = 4 \<and> list_all is_digit ys then
             (case (strp_field 1 12 ms, strp_day ds) of
                (Some m, Some d) \<Rightarrow>
                  if 1 \<le> digits_value ys \<and> d \<le> days_in_month (digits_value ys) m
                  then Inr (mk_datetime (ymd2ord (digits_value ys) m d) 0)
                  else Inl ValueError
              | _ \<Rightarrow> Inl ValueError)
           else Inl ValueError)
      | _ \<Rightarrow> Inl ValueError)"

definition starting :: "string \<Rightarrow> job \<Rightarrow> error + job" where
  "starting date_str j =
     (case strptime_Ymd date_str of
        Inl e \<Rightarrow> Inl e
      | Inr d \<Rightarrow> Inr (j\<lparr>start_run := Some d\<rparr>))"

subsubsection \<open>\<^verbatim>\<open>Job._schedule_next_run\<close>\<close>

text \<open>
  A method that changes the job returns the exception it raised, if any, the job as the
  call left it, and the world: what was assigned before a raise stays assigned.

  \<^verbatim>\<open>run_days.remove(day)\<close> removes the first element equal to \<^verbatim>\<open>day\<close> and raises
  \<^verbatim>\<open>ValueError\<close> when there is none.
\<close>

definition list_remove :: "'a \<Rightarrow> 'a list \<Rightarrow> error + 'a list" where
  "list_remove x xs = (if x \<in> set xs then Inr (remove1 x xs) else Inl ValueError)"

text \<open>
  The loop of lines 305 to 307 over \<^verbatim>\<open>self.run_days\<close>: \<open>wd\<close> is
  \<^verbatim>\<open>self.last_run.isoweekday()\<close> and \<open>acc\<close> the local copy \<^verbatim>\<open>run_days\<close>.
\<close>

fun remove_matched :: "int \<Rightarrow> int set list \<Rightarrow> int set list \<Rightarrow> error + int set list" where
  "remove_matched wd [] acc = Inr acc"
| "remove_matched wd (grp # rest) acc =
     (if wd \<in> grp
      then (case list_remove grp acc of
              Inl e \<Rightarrow> Inl e
            | Inr acc' \<Rightarrow> remove_matched wd rest acc')
      else remove_matched wd rest acc)"

text \<open>The local \<^verbatim>\<open>run_days\<close> after lines 301 to 307: the groups still to be considered.\<close>

definition working_groups :: "job \<Rightarrow> error + int set list" where
  "working_groups j =
     (case last_run j of
        None \<Rightarrow> Inr (run_days j)
      | Some lr \<Rightarrow> remove_matched (isoweekday lr) (run_days j) (run_days j))"

text \<open>Lines 309 to 311: one weekday drawn from each group, in the order of the groups.\<close>

fun sample_days :: "env \<Rightarrow> int set list \<Rightarrow> world \<Rightarrow> (error + int list) \<times> world" where
  "sample_days E [] w = (Inr [], w)"
| "sample_days E (grp # rest) w =
     (case sample1 E grp w of
        (Inl e, w1) \<Rightarrow> (Inl e, w1)
      | (Inr d, w1) \<Rightarrow>
          (case sample_days E rest w1 of
             (Inl e, w2) \<Rightarrow> (Inl e, w2)
           | (Inr ds, w2) \<Rightarrow> (Inr (d # ds), w2)))"

text \<open>
  Lines 313 to 319, on the distinct weekdays drawn (the set \<^verbatim>\<open>days\<close>) and the weekday of
  \<^verbatim>\<open>starting\<close>.
\<close>

definition closest_delta :: "int list \<Rightarrow> int \<Rightarrow> int" where
  "closest_delta picked wd =
     (let days = remdups picked
      in if days = [] then 0
         else (let delta_all = sort (map (\<lambda>i. (i - wd) mod 7) days) in hd delta_all))"

text \<open>
  Lines 300 to 328: \<open>starting_dt\<close> is the local \<^verbatim>\<open>starting\<close> of line 295 and
  \<open>u\<close> the unit. The job comes with \<^verbatim>\<open>period\<close> and the baseline \<^verbatim>\<open>next_run\<close>
  already assigned.
\<close>

definition weekday_step ::
    "env \<Rightarrow> unit_name \<Rightarrow> datetime \<Rightarrow> job \<Rightarrow> world \<Rightarrow> error option \<times> job \<times> world" where
  "weekday_step E u starting_dt j w =
     (if run_days j = [] then (None, j, w)
      else
        (let starting_dt' = (case last_run j of None \<Rightarrow> starting_dt | Some lr \<Rightarrow> lr)
         in (case working_groups j of
               Inl e \<Rightarrow> (Some e, j, w)
             | Inr groups \<Rightarrow>
                 (case sample_days E groups w of
                    (Inl e, w1) \<Rightarrow> (Some e, j, w1)
                  | (Inr picked, w1) \<Rightarrow>
                      (let days_delta = closest_delta picked (isoweekday starting_dt');
                           days_delta' =
                             (if days_delta = 0 \<and>
                                 (case last_run j of None \<Rightarrow> False
                                  | Some lr \<Rightarrow> date lr = date starting_dt')
                              then (if u = Days then 7
                                    else if u = Weeks then interval j * 7
                                    else days_delta)
                              else days_delta)
                       in (case timedelta Days days_delta' of
                             Inl e \<Rightarrow> (Some e, j, w1)
                           | Inr td \<Rightarrow>
                               (case datetime_add starting_dt' td of
                                  Inl e \<Rightarrow> (Some e, j, w1)
                                | Inr nr \<Rightarrow> (None, j\<lparr>next_run := Some nr\<rparr>, w1))))))))"

text \<open>
  \<^verbatim>\<open>int((end - start).total_seconds())\<close>: the whole seconds of a difference, rounded
  towards zero.
\<close>

definition whole_seconds :: "timedelta \<Rightarrow> int" where
  "whole_seconds td = (if 0 \<le> td then td div 1000000 else - ((- td) div 1000000))"

text \<open>Lines 330 to 335.\<close>

definition window_step :: "env \<Rightarrow> job \<Rightarrow> world \<Rightarrow> error option \<times> job \<times> world" where
  "window_step E j w =
     (case between_times j of
        None \<Rightarrow> (None, j, w)
      | Some (start, end) \<Rightarrow>
          (case randint E 0 (whole_seconds (end - start)) w of
             (Inl e, w1) \<Rightarrow> (Some e, j, w1)
           | (Inr k, w1) \<Rightarrow>
               (case timedelta Seconds k of
                  Inl e \<Rightarrow> (Some e, j, w1)
                | Inr td \<Rightarrow>
                    (case datetime_add start td of
                       Inl e \<Rightarrow> (Some e, j, w1)
                     | Inr d \<Rightarrow> (None, j\<lparr>at_time := Some (time_of d)\<rparr>, w1)))))"

text \<open>Lines 336 to 345; \<open>nr\<close> is \<^verbatim>\<open>self.next_run\<close> as the lines before left it.\<close>

definition at_time_step ::
    "env \<Rightarrow> datetime \<Rightarrow> job \<Rightarrow> world \<Rightarrow> error option \<times> job \<times> world" where
  "at_time_step E nr j w =
     (case at_time j of
        None \<Rightarrow> (None, j, w)
      | Some t \<Rightarrow>
          (let nr' = replace_hms nr (time_hour t) (time_minute t) (time_second t);
               j1 = j\<lparr>next_run := Some nr'\<rparr>
           in if last_run j = None \<and> run_days j = []
              then (case now E w of
                      (n, w1) \<Rightarrow>
                        if t > time_of n
                        then (case datetime_add nr' (- us_per_day) of
                                Inl e \<Rightarrow> (Some e, j1, w1)
                              | Inr d \<Rightarrow> (None, j1\<lparr>next_run := Some d\<rparr>, w1))
                        else (None, j1, w1))
              else (None, j1, w)))"

definition schedule_next_run :: "env \<Rightarrow> job \<Rightarrow> world \<Rightarrow> error option \<times> job \<times> world" where
  "schedule_next_run E j w =
     (case unit j of
        None \<Rightarrow> (Some AssertionError, j, w)
      | Some u \<Rightarrow>
          (case (case start_run j of None \<Rightarrow> now E w | Some s \<Rightarrow> (s, w)) of
             (starting_dt, w1) \<Rightarrow>
               (case timedelta u (interval j) of
                  Inl e \<Rightarrow> (Some e, j, w1)
                | Inr p \<Rightarrow>
                    (case datetime_add starting_dt p of
                       Inl e \<Rightarrow> (Some e, j\<lparr>period := Some p\<rparr>, w1)
                     | Inr nr \<Rightarrow>
                         (case weekday_step E u starting_dt
                                 (j\<lparr>period := Some p, next_run := Some nr\<rparr>) w1 of
                            (Some e, j2, w2) \<Rightarrow> (Some e, j2, w2)
                          | (None, j2, w2) \<Rightarrow>
                              (case window_step E j2 w2 of
                                 (Some e, j3, w3) \<Rightarrow> (Some e, j3, w3)
                               | (None, j3, w3) \<Rightarrow>
                                   (case next_run j3 of
                                      None \<Rightarrow> (Some AttributeError, j3, w3)
                                    | Some nr3 \<Rightarrow> at_time_step E nr3 j3 w3)))))))"

subsubsection \<open>\<^verbatim>\<open>Job.do\<close>, \<^verbatim>\<open>Job.should_run\<close> and \<^verbatim>\<open>Job.run\<close>\<close>

text \<open>A work unit is a number: the callable with its bound arguments.\<close>

definition do :: "env \<Rightarrow> nat \<Rightarrow> job \<Rightarrow> world \<Rightarrow> error option \<times> job \<times> world" where
  "do E f j w = schedule_next_run E (j\<lparr>job_func := Some f\<rparr>) w"

definition should_run :: "env \<Rightarrow> job \<Rightarrow> world \<Rightarrow> (error + bool) \<times> world" where
  "should_run E j w =
     (case now E w of
        (n, w1) \<Rightarrow>
          (case next_run j of
             None \<Rightarrow> (Inl TypeError, w1)
           | Some nr \<Rightarrow> (Inr (n \<ge> nr), w1)))"

definition run :: "env \<Rightarrow> job \<Rightarrow> world \<Rightarrow> error option \<times> job \<times> world" where
  "run E j w =
     (case job_func j of
        None \<Rightarrow> (Some TypeError, j, w)
      | Some f \<Rightarrow>
          (case outcome E f (calls j) of
             Some e \<Rightarrow> (Some e, j\<lparr>calls := Suc (calls j)\<rparr>, w)
           | None \<Rightarrow>
               (case now E w of
                  (n, w1) \<Rightarrow>
                    schedule_next_run E (j\<lparr>calls := Suc (calls j), last_run := Some n\<rparr>) w1)))"

subsection \<open>Scheduler\<close>

text \<open>
  The registry \<^verbatim>\<open>self.jobs\<close> is the list of its jobs; a job is known by its position,
  which \<^verbatim>\<open>every\<close> and \<^verbatim>\<open>on\<close> hand out at the end of the list.
\<close>

definition every :: "int \<Rightarrow> job list \<Rightarrow> job list" where
  "every n jobs = jobs @ [Job n]"


definition clear :: "job list \<Rightarrow> job list" where
  "clear jobs = []"

text \<open>
  \<^verbatim>\<open>Job.__lt__\<close>: an order comparison with \<^verbatim>\<open>None\<close> on either side raises
  \<^verbatim>\<open>TypeError\<close>.
\<close>

definition job_lt :: "job \<Rightarrow> job \<Rightarrow> error + bool" where
  "job_lt a b =
     (case (next_run a, next_run b) of
        (Some x, Some y) \<Rightarrow> Inr (x < y)
      | _ \<Rightarrow> Inl TypeError)"

text \<open>
  \<^verbatim>\<open>min\<close> keeps the first least element: each later item replaces the least one so far
  when \<^verbatim>\<open>item < least\<close>.
\<close>

fun min_job :: "job \<Rightarrow> job list \<Rightarrow> error + job" where
  "min_job least [] = Inr least"
| "min_job least (item # rest) =
     (case job_lt item least of
        Inl e \<Rightarrow> Inl e
      | Inr b \<Rightarrow> min_job (if b then item else least) rest)"

definition Scheduler_next_run :: "job list \<Rightarrow> error + datetime option" where
  "Scheduler_next_run jobs =
     (case jobs of
        [] \<Rightarrow> Inr None
      | first # rest \<Rightarrow>
          (case min_job first rest of
             Inl e \<Rightarrow> Inl e
           | Inr m \<Rightarrow> Inr (next_run m)))"

text \<open>
  \<^verbatim>\<open>idle_seconds\<close>: the difference in microseconds (\<^verbatim>\<open>total_seconds()\<close> is this number
  divided by \<open>10\<^sup>6\<close>). \<^verbatim>\<open>self.next_run\<close> is evaluated first, then the clock is read,
  then the subtraction raises \<^verbatim>\<open>TypeError\<close> on \<^verbatim>\<open>None\<close>.
\<close>

definition idle_seconds :: "env \<Rightarrow> job list \<Rightarrow> world \<Rightarrow> (error + int) \<times> world" where
  "idle_seconds E jobs w =
     (case Scheduler_next_run jobs of
        Inl e \<Rightarrow> (Inl e, w)
      | Inr nr \<Rightarrow>
          (case now E w of
             (n, w1) \<Rightarrow>
               (case nr of
                  None \<Rightarrow> (Inl TypeError, w1)
                | Some d \<Rightarrow> (Inr (d - n), w1))))"

text \<open>
  \<^verbatim>\<open>run_pending\<close>. The generator of line 59 is consumed by \<^verbatim>\<open>sorted\<close> before any job
  runs: \<open>runnable_jobs\<close> asks every job in turn whether it should run and returns the
  positions of those that should, each with its \<^verbatim>\<open>next_run\<close>. \<^verbatim>\<open>sorted\<close> is stable and
  compares by \<^verbatim>\<open>next_run\<close>.
\<close>

fun runnable_jobs ::
    "env \<Rightarrow> (nat \<times> job) list \<Rightarrow> world \<Rightarrow> (error + (datetime \<times> nat) list) \<times> world" where
  "runnable_jobs E [] w = (Inr [], w)"
| "runnable_jobs E ((i, j) # rest) w =
     (case should_run E j w of
        (Inl e, w1) \<Rightarrow> (Inl e, w1)
      | (Inr b, w1) \<Rightarrow>
          (case runnable_jobs E rest w1 of
             (Inl e, w2) \<Rightarrow> (Inl e, w2)
           | (Inr due, w2) \<Rightarrow>
               (Inr (case next_run j of
                       Some nr \<Rightarrow> if b then (nr, i) # due else due
                     | None \<Rightarrow> due), w2)))"

text \<open>The loop of lines 60 and 61 over the positions of the jobs to run.\<close>

fun run_jobs ::
    "env \<Rightarrow> nat list \<Rightarrow> job list \<Rightarrow> world \<Rightarrow> error option \<times> job list \<times> world" where
  "run_jobs E [] jobs w = (None, jobs, w)"
| "run_jobs E (i # rest) jobs w =
     (case run E (jobs ! i) w of
        (Some e, j', w1) \<Rightarrow> (Some e, jobs[i := j'], w1)
      | (None, j', w1) \<Rightarrow> run_jobs E rest (jobs[i := j']) w1)"

definition run_pending :: "env \<Rightarrow> job list \<Rightarrow> world \<Rightarrow> error option \<times> job list \<times> world" where
  "run_pending E jobs w =
     (case runnable_jobs E (zip [0..<length jobs] jobs) w of
        (Inl e, w1) \<Rightarrow> (Some e, jobs, w1)
      | (Inr due, w1) \<Rightarrow> run_jobs E (map snd (sort_key fst due)) jobs w1)"

text \<open>
  \<^verbatim>\<open>run_all\<close>: every job in the order of the registry; \<^verbatim>\<open>time.sleep\<close> raises
  \<^verbatim>\<open>ValueError\<close> on a negative delay.
\<close>

fun run_all ::
    "env \<Rightarrow> int \<Rightarrow> job list \<Rightarrow> world \<Rightarrow> error option \<times> job list \<times> world" where
  "run_all E delay_seconds [] w = (None, [], w)"
| "run_all E delay_seconds (j # rest) w =
     (case run E j w of
        (Some e, j', w1) \<Rightarrow> (Some e, j' # rest, w1)
      | (None, j', w1) \<Rightarrow>
          if delay_seconds < 0 then (Some ValueError, j' # rest, w1)
          else (case run_all E delay_seconds rest w1 of
                  (r, rest', w2) \<Rightarrow> (r, j' # rest', w2)))"

subsection \<open>Jobs as the configuration calls leave them\<close>

text \<open>
  What the types of the source guarantee and the model's types do not: an \<^verbatim>\<open>at_time\<close> is a
  time of day, and the two ends of \<^verbatim>\<open>between_times\<close> are on 1900-01-01, where
  \<^verbatim>\<open>strptime\<close> puts them. The window is in order when its end is not before its start.
\<close>

definition wf_job :: "job \<Rightarrow> bool" where
  "wf_job j =
     ((case at_time j of None \<Rightarrow> True | Some t \<Rightarrow> 0 \<le> t \<and> t < us_per_day) \<and>
      (case between_times j of None \<Rightarrow> True
       | Some (s, e) \<Rightarrow> date s = 693596 \<and> date e = 693596))"

definition window_in_order :: "job \<Rightarrow> bool" where
  "window_in_order j = (case between_times j of None \<Rightarrow> True | Some (s, e) \<Rightarrow> s \<le> e)"


subsection \<open>Example data\<close>

text \<open>
  Monday 2024-06-03 is day 739040 and Sunday 2024-06-02 day 739039. In \<open>E_8am\<close> the clock
  stands at 08:00 on that Monday, every random draw is backed by 0, and the work unit 0
  returns while any other one raises.
\<close>

definition monday_8am :: datetime where
  "monday_8am = mk_datetime 739040 (mk_time 8 0 0)"

definition E_8am :: env where
  "E_8am = \<lparr>clock = (\<lambda>k. monday_8am), rnd = (\<lambda>k. 0),
            outcome = (\<lambda>f k. if f = 0 then None else Some (UserError f))\<rparr>"

definition w0 :: world where
  "w0 = \<lparr>ticks = 0, draws = 0\<rparr>"

text \<open>The job of \<^verbatim>\<open>every().days.on('mon|tue', 'mon|wed', 'thu')\<close> after a run on that Monday.\<close>

definition job_mon_groups :: job where
  "job_mon_groups = (Job 1)\<lparr>job_func := Some 0, unit := Some Days,
                             run_days := [{1, 2}, {1, 3}, {4}],
                             last_run := Some monday_8am\<rparr>"

text \<open>
  A registry of two jobs at 08:00 on that Monday: the first is due, the second is due a
  microsecond later.
\<close>

definition job_due :: job where
  "job_due = (Job 1)\<lparr>job_func := Some 0, unit := Some Days, next_run := Some monday_8am\<rparr>"

definition job_not_due :: job where
  "job_not_due = (Job 1)\<lparr>job_func := Some 0, unit := Some Hours,
                          next_run := Some (monday_8am + 1)\<rparr>"

text \<open>
  A daily job that ran at 08:00 on that Monday; the same with a start date on the Sunday
  before, as \<^verbatim>\<open>starting('2024-06-02')\<close> stores it; the job of
  \<^verbatim>\<open>every().day.at('23:59')\<close> before \<^verbatim>\<open>do\<close>; and the same with the start date
  2024-07-01, day 739068.
\<close>

definition job_daily_ran_today :: job where
  "job_daily_ran_today = (Job 1)\<lparr>job_func := Some 0, unit := Some Days,
                                  last_run := Some monday_8am, next_run := Some monday_8am\<rparr>"

definition job_started_sunday :: job where
  "job_started_sunday = (Job 1)\<lparr>job_func := Some 0, unit := Some Days,
                                 start_run := Some (mk_datetime 739039 0),
                                 last_run := Some monday_8am\<rparr>"

definition job_at_2359 :: job where
  "job_at_2359 = (Job 1)\<lparr>unit := Some Days, at_time := Some (mk_time 23 59 0)\<rparr>"

definition job_start_july :: job where
  "job_start_july = (Job 1)\<lparr>unit := Some Days, at_time := Some (mk_time 23 59 0),
                             start_run := Some (mk_datetime 739068 0)\<rparr>"

section \<open>Properties\<close>

subsection \<open>The groups left out after a run\<close>

lemma count_list_remove1:
  "count_list (remove1 x xs) y = (if x = y \<and> x \<in> set xs then count_list xs y - 1 else count_list xs y)"
  by (induction xs) auto

lemma filter_remove1_other: "\<not> P x \<Longrightarrow> filter P (remove1 x xs) = filter P xs"
  by (induction xs) auto

lemma remove_matched_aux:
  "(\<And>g. wd \<in> g \<Longrightarrow> count_list xs g \<le> count_list acc g) \<Longrightarrow>
   \<exists>acc'. remove_matched wd xs acc = Inr acc' \<and>
      filter (\<lambda>g. wd \<notin> g) acc' = filter (\<lambda>g. wd \<notin> g) acc \<and>
      (\<forall>g. wd \<in> g \<longrightarrow> count_list acc' g = count_list acc g - count_list xs g)"
proof (induction xs arbitrary: acc)
  case Nil
  then show ?case by simp
next
  case (Cons grp rest)
  show ?case
  proof (cases "wd \<in> grp")
    case True
    from Cons.prems[OF True] have "count_list acc grp \<noteq> 0" by simp
    then have mem: "grp \<in> set acc" by (simp add: count_list_0_iff)
    have pre: "count_list rest g \<le> count_list (remove1 grp acc) g" if "wd \<in> g" for g
    proof -
      from Cons.prems[OF that]
      have "count_list (grp # rest) g \<le> count_list acc g" .
      then show ?thesis using mem by (cases "grp = g") (simp_all add: count_list_remove1)
    qed
    from Cons.IH[OF pre] obtain acc' where
      r: "remove_matched wd rest (remove1 grp acc) = Inr acc'" and
      f: "filter (\<lambda>g. wd \<notin> g) acc' = filter (\<lambda>g. wd \<notin> g) (remove1 grp acc)" and
      c: "\<And>g. wd \<in> g \<Longrightarrow> count_list acc' g = count_list (remove1 grp acc) g - count_list rest g"
      by blast
    have 1: "remove_matched wd (grp # rest) acc = Inr acc'"
      using True mem r by (simp add: list_remove_def)
    have 2: "filter (\<lambda>g. wd \<notin> g) acc' = filter (\<lambda>g. wd \<notin> g) acc"
      using f True by (simp add: filter_remove1_other)
    have 3: "count_list acc' g = count_list acc g - count_list (grp # rest) g" if "wd \<in> g" for g
      using c[OF that] mem by (cases "grp = g") (simp_all add: count_list_remove1)
    from 1 2 3 show ?thesis by blast
  next
    case False
    have pre: "count_list rest g \<le> count_list acc g" if "wd \<in> g" for g
    proof -
      from that False have "grp \<noteq> g" by blast
      with Cons.prems[OF that] show ?thesis by simp
    qed
    from Cons.IH[OF pre] obtain acc' where
      r: "remove_matched wd rest acc = Inr acc'" and
      f: "filter (\<lambda>g. wd \<notin> g) acc' = filter (\<lambda>g. wd \<notin> g) acc" and
      c: "\<And>g. wd \<in> g \<Longrightarrow> count_list acc' g = count_list acc g - count_list rest g"
      by blast
    have 1: "remove_matched wd (grp # rest) acc = Inr acc'"
      using False r by simp
    have 3: "count_list acc' g = count_list acc g - count_list (grp # rest) g" if "wd \<in> g" for g
    proof -
      from that False have "grp \<noteq> g" by blast
      with c[OF that] show ?thesis by simp
    qed
    from 1 f 3 show ?thesis by blast
  qed
qed

lemma remove_matched_filter:
  "remove_matched wd rd rd = Inr (filter (\<lambda>g. wd \<notin> g) rd)"
proof -
  have "\<exists>acc'. remove_matched wd rd rd = Inr acc' \<and>
      filter (\<lambda>g. wd \<notin> g) acc' = filter (\<lambda>g. wd \<notin> g) rd \<and>
      (\<forall>g. wd \<in> g \<longrightarrow> count_list acc' g = count_list rd g - count_list rd g)"
    by (rule remove_matched_aux) simp
  then obtain acc' where
    r: "remove_matched wd rd rd = Inr acc'" and
    f: "filter (\<lambda>g. wd \<notin> g) acc' = filter (\<lambda>g. wd \<notin> g) rd" and
    c: "\<And>g. wd \<in> g \<Longrightarrow> count_list acc' g = 0"
    by auto
  have "wd \<notin> g" if "g \<in> set acc'" for g
  proof
    assume "wd \<in> g"
    from c[OF this] have "g \<notin> set acc'" by (simp add: count_list_0_iff)
    with that show False by simp
  qed
  then have "filter (\<lambda>g. wd \<notin> g) acc' = acc'" by simp
  with r f show ?thesis by simp
qed

text \<open>
  C1, as amended. When \<^verbatim>\<open>_schedule_next_run\<close> runs after a previous run that was not on
  a Sunday, the working set of groups is the job's groups without every group that
  contains the weekday of \<^verbatim>\<open>last_run\<close>, in their order: all the matching groups are left
  out, not one of them at most.
\<close>

theorem working_groups_drops_every_match:
  "last_run j = Some lr \<Longrightarrow> isoweekday lr \<noteq> 7 \<Longrightarrow>
   working_groups j = Inr (filter (\<lambda>g. isoweekday lr \<notin> g) (run_days j))"
  by (simp add: working_groups_def remove_matched_filter)

theorem working_groups_drops_every_match_witness:
  "last_run job_mon_groups = Some monday_8am \<and> isoweekday monday_8am \<noteq> 7 \<and>
   working_groups job_mon_groups = Inr [{4}]"
proof -
  have a: "last_run job_mon_groups = Some monday_8am"
    by (simp add: job_mon_groups_def)
  have b: "isoweekday monday_8am = 1"
    by (simp add: isoweekday_def date_def monday_8am_def mk_datetime_def mk_time_def
        us_per_day_def)
  then have c: "isoweekday monday_8am \<noteq> 7" by simp
  have "working_groups job_mon_groups = Inr [{4}]"
    using working_groups_drops_every_match [OF a c] b
    by (simp add: job_mon_groups_def Job_def)
  with a c show ?thesis by simp
qed

text \<open>
  C1 as stated fails: with the groups of \<^verbatim>\<open>on('mon|tue', 'mon|wed')\<close> and a last run on a
  Monday, both groups are removed and none is left.
\<close>

theorem working_groups_removes_two_groups:
  "working_groups ((Job 1)\<lparr>unit := Some Days, run_days := [{1, 2}, {1, 3}],
                           last_run := Some (mk_datetime 739040 (mk_time 8 0 0))\<rparr>) = Inr []"
  by (simp add: working_groups_def Job_def isoweekday_def date_def mk_datetime_def
      mk_time_def us_per_day_def list_remove_def)

text \<open>
  A last run on a Sunday matches no group: \<^verbatim>\<open>isoweekday()\<close> is 7 on a Sunday, and the
  groups hold 0 for it. After a run on Sunday 2024-06-02 the groups of
  \<^verbatim>\<open>on('sun', 'wed')\<close> are both still there.
\<close>

lemma working_groups_after_sunday:
  "working_groups ((Job 1)\<lparr>unit := Some Days, run_days := [{0}, {3}],
                           last_run := Some (mk_datetime 739039 (mk_time 8 0 0))\<rparr>)
     = Inr [{0}, {3}]"
  by (simp add: working_groups_def Job_def isoweekday_def date_def mk_datetime_def
      mk_time_def us_per_day_def list_remove_def)

subsection \<open>A work unit that raises\<close>

text \<open>
  C4. When the work unit of a job raises during \<^verbatim>\<open>run\<close>, the caller gets that exception
  as it is, and the job is as before but for the count of invocations: \<^verbatim>\<open>last_run\<close> and
  \<^verbatim>\<open>next_run\<close> are what they were, no clock was read and nothing was recomputed, so a
  job that was due is still due.
\<close>

theorem run_work_unit_raises:
  "job_func j = Some f \<Longrightarrow> outcome E f (calls j) = Some e \<Longrightarrow>
   run E j w = (Some e, j\<lparr>calls := Suc (calls j)\<rparr>, w) \<and>
   last_run (fst (snd (run E j w))) = last_run j \<and>
   next_run (fst (snd (run E j w))) = next_run j \<and>
   should_run E (fst (snd (run E j w))) w = should_run E j w"
  by (simp add: run_def should_run_def)

theorem run_work_unit_raises_witness:
  "job_func job_mon_groups = Some 0 \<and>
   outcome (E_8am\<lparr>outcome := \<lambda>f k. Some (UserError 5)\<rparr>) 0 (calls job_mon_groups)
     = Some (UserError 5) \<and>
   run (E_8am\<lparr>outcome := \<lambda>f k. Some (UserError 5)\<rparr>) job_mon_groups w0
     = (Some (UserError 5), job_mon_groups\<lparr>calls := 1\<rparr>, w0)"
proof -
  have a: "job_func job_mon_groups = Some 0"
    by (simp add: job_mon_groups_def)
  have b: "outcome (E_8am\<lparr>outcome := \<lambda>f k. Some (UserError 5)\<rparr>) 0 (calls job_mon_groups)
             = Some (UserError 5)"
    by simp
  have c: "calls job_mon_groups = 0"
    by (simp add: job_mon_groups_def Job_def)
  show ?thesis
    using run_work_unit_raises [OF a b, of w0] a b c by simp
qed

subsection \<open>Queries on an empty registry\<close>

text \<open>
  C5. On a registry without jobs the \<^verbatim>\<open>next_run\<close> query returns \<^verbatim>\<open>None\<close>, and
  \<^verbatim>\<open>idle_seconds\<close> then subtracts the clock from \<^verbatim>\<open>None\<close>: it raises
  \<^verbatim>\<open>TypeError\<close>, after one reading of the clock, instead of returning an absent result.
\<close>

theorem idle_seconds_empty_registry:
  "Scheduler_next_run [] = Inr None \<and>
   idle_seconds E [] w = (Inl TypeError, w\<lparr>ticks := Suc (ticks w)\<rparr>)"
  by (simp add: Scheduler_next_run_def idle_seconds_def now_def)

subsection \<open>Weekday names\<close>

text \<open>
  C6, as amended. \<^verbatim>\<open>Job.on\<close> never fails on strings: it stores the non-empty groups of
  its arguments, in their order, and the group of an argument is empty exactly when no
  weekday name starts with any of its parts; such an argument is dropped without a word.
\<close>

theorem on_accepts_every_string:
  "on ds j = Inr (j\<lparr>run_days := filter (\<lambda>g. g \<noteq> {}) (map day_or ds)\<rparr>) \<and>
   (day_or d = {}) =
     (\<forall>p \<in> set (str_split (CHR ''|'') d). \<forall>(n, i) \<in> set WEEKDAYS.
        \<not> startswith n (str_lower p))"
  by (auto simp: on_def day_or_def)

theorem on_accepts_every_string_witness:
  "on [''funday'', ''Mon''] (Job 1) = Inr ((Job 1)\<lparr>run_days := [{1}]\<rparr>) \<and>
   day_or ''funday'' = {}"
  using on_accepts_every_string [of "[''funday'', ''Mon'']" "Job 1" "''funday''"]
  by (simp add: day_or_def WEEKDAYS_def startswith_def str_lower_def lower_char_def)

text \<open>
  C6 as stated fails: \<^verbatim>\<open>on('funday')\<close> is accepted, and leaves the job without a weekday.
\<close>

theorem on_unknown_name_is_accepted:
  "on [''funday''] (Job 1) = Inr (Job 1)"
  by (simp add: on_def day_or_def WEEKDAYS_def startswith_def str_lower_def lower_char_def
      Job_def)

subsection \<open>What a recomputation leaves alone\<close>

text \<open>
  \<^verbatim>\<open>_schedule_next_run\<close> assigns \<^verbatim>\<open>period\<close>, \<^verbatim>\<open>next_run\<close> and \<^verbatim>\<open>at_time\<close> and
  nothing else, whether it raises or not.
\<close>

lemma weekday_step_frame:
  "weekday_step E u st j w = (r, j', w') \<Longrightarrow>
   interval j' = interval j \<and> job_func j' = job_func j \<and> unit j' = unit j \<and>
   at_time j' = at_time j \<and> between_times j' = between_times j \<and>
   run_days j' = run_days j \<and> start_run j' = start_run j \<and> last_run j' = last_run j \<and>
   period j' = period j \<and> calls j' = calls j"
  unfolding weekday_step_def
  by (auto simp: Let_def split: if_splits sum.splits prod.splits option.splits)












subsection \<open>Weekdays and the unit\<close>




subsection \<open>A job that is not due\<close>

lemma should_run_eq:
  "should_run E j w =
     (case next_run j of None \<Rightarrow> Inl TypeError | Some nr \<Rightarrow> Inr (nr \<le> clock E (ticks w)),
      w\<lparr>ticks := Suc (ticks w)\<rparr>)"
  by (simp add: should_run_def now_def split: option.splits)

lemma runnable_jobs_due:
  "runnable_jobs E ijs w = (Inr due, w') \<Longrightarrow> (d, i) \<in> set due \<Longrightarrow>
   \<exists>p < length ijs. fst (ijs ! p) = i \<and> next_run (snd (ijs ! p)) = Some d \<and>
                   d \<le> clock E (ticks w + p)"
proof (induction ijs arbitrary: w due w')
  case Nil
  then show ?case by simp
next
  case (Cons ij rest)
  obtain i0 j0 where ij: "ij = (i0, j0)" by (cases ij)
  let ?w1 = "w\<lparr>ticks := Suc (ticks w)\<rparr>"
  from Cons.prems(1) obtain nr0 where nr0: "next_run j0 = Some nr0"
    by (cases "next_run j0") (auto simp: ij should_run_eq)
  from Cons.prems(1) nr0 obtain due' w2 where
    rest: "runnable_jobs E rest ?w1 = (Inr due', w2)" and
    due: "due = (if nr0 \<le> clock E (ticks w) then (nr0, i0) # due' else due')"
    by (auto simp: ij should_run_eq split: sum.splits prod.splits)
  show ?case
  proof (cases "(d, i) \<in> set due'")
    case True
    from Cons.IH[OF rest True] obtain p where
      "p < length rest" "fst (rest ! p) = i" "next_run (snd (rest ! p)) = Some d"
      "d \<le> clock E (ticks ?w1 + p)" by blast
    then have "Suc p < length (ij # rest) \<and> fst ((ij # rest) ! Suc p) = i \<and>
        next_run (snd ((ij # rest) ! Suc p)) = Some d \<and> d \<le> clock E (ticks w + Suc p)"
      by simp
    then show ?thesis by blast
  next
    case False
    with Cons.prems(2) due have "(d, i) = (nr0, i0)" "nr0 \<le> clock E (ticks w)"
      by (auto split: if_splits)
    then have "0 < length (ij # rest) \<and> fst ((ij # rest) ! 0) = i \<and>
        next_run (snd ((ij # rest) ! 0)) = Some d \<and> d \<le> clock E (ticks w + 0)"
      using nr0 ij by simp
    then show ?thesis by blast
  qed
qed

lemma run_jobs_other:
  "i \<notin> set is \<Longrightarrow> run_jobs E is jobs w = (r, jobs', w') \<Longrightarrow>
   jobs' ! i = jobs ! i \<and> length jobs' = length jobs"
proof (induction "is" arbitrary: jobs w)
  case Nil
  then show ?case by simp
next
  case (Cons k rest)
  obtain r1 j1 w1 where rk: "run E (jobs ! k) w = (r1, j1, w1)"
    by (cases "run E (jobs ! k) w") auto
  from Cons.prems(1) have ne: "k \<noteq> i" and nin: "i \<notin> set rest" by auto
  show ?case
  proof (cases r1)
    case (Some e)
    with rk Cons.prems(2) have "jobs' = jobs[k := j1]" by simp
    with ne show ?thesis by simp
  next
    case None
    with rk Cons.prems(2) have "run_jobs E rest (jobs[k := j1]) w1 = (r, jobs', w')" by simp
    from Cons.IH[OF nin this] ne show ?thesis by simp
  qed
qed

text \<open>
  C7. The job at position \<open>i\<close> of the registry is asked whether it should run at the
  \<open>i\<close>-th reading of the clock of \<^verbatim>\<open>run_pending\<close>. When its \<^verbatim>\<open>next_run\<close> is after that
  reading, the call leaves the job as it was, in every field and in the count of the
  invocations of its work unit, whatever the other jobs do and whether the call raises or
  not.
\<close>

theorem run_pending_leaves_not_due_job:
  assumes "i < length jobs" "next_run (jobs ! i) = Some nr" "clock E (ticks w + i) < nr"
  shows "fst (snd (run_pending E jobs w)) ! i = jobs ! i \<and>
         length (fst (snd (run_pending E jobs w))) = length jobs"
proof (cases "runnable_jobs E (zip [0..<length jobs] jobs) w")
  case (Pair res w1)
  show ?thesis
  proof (cases res)
    case (Inl e)
    with Pair show ?thesis by (simp add: run_pending_def)
  next
    case (Inr due)
    have nin: "i \<notin> set (map snd (sort_key fst due))"
    proof
      assume "i \<in> set (map snd (sort_key fst due))"
      then obtain d where "(d, i) \<in> set due" by auto
      from runnable_jobs_due[OF Pair[unfolded Inr] this] obtain p where
        p: "p < length (zip [0..<length jobs] jobs)"
        "fst (zip [0..<length jobs] jobs ! p) = i"
        "next_run (snd (zip [0..<length jobs] jobs ! p)) = Some d"
        "d \<le> clock E (ticks w + p)" by blast
      from p(1,2) have "p = i" by simp
      with p assms show False by simp
    qed
    obtain r jobs' w' where rj: "run_jobs E (map snd (sort_key fst due)) jobs w1 = (r, jobs', w')"
      by (cases "run_jobs E (map snd (sort_key fst due)) jobs w1") auto
    from run_jobs_other[OF nin rj] Pair Inr rj show ?thesis by (simp add: run_pending_def)
  qed
qed

lemma run_pending_example_runs_due_job:
  "calls (fst (snd (run_pending E_8am [job_due, job_not_due] w0)) ! 0) = 1"
  by code_simp

theorem run_pending_leaves_not_due_job_witness:
  "(1::nat) < length [job_due, job_not_due] \<and>
   next_run ([job_due, job_not_due] ! 1) = Some (monday_8am + 1) \<and>
   clock E_8am (ticks w0 + 1) < monday_8am + 1 \<and>
   fst (snd (run_pending E_8am [job_due, job_not_due] w0)) ! 1 = job_not_due"
proof -
  have a: "(1::nat) < length [job_due, job_not_due]" by simp
  have b: "next_run ([job_due, job_not_due] ! 1) = Some (monday_8am + 1)"
    by (simp add: job_not_due_def)
  have c: "clock E_8am (ticks w0 + 1) < monday_8am + 1"
    by (simp add: E_8am_def)
  from run_pending_leaves_not_due_job [OF a b c] a b c show ?thesis by simp
qed

subsection \<open>A window whose end is before its start\<close>

lemma strptime_HM_form:
  assumes "strptime_HM t = Inr s"
  shows "\<exists>k. s = 693596 * us_per_day + k * 60000000"
proof -
  from assms obtain h m where "s = mk_datetime 693596 (mk_time h m 0)"
    by (auto simp: strptime_HM_def split: list.splits option.splits if_splits)
  then have "s = 693596 * us_per_day + (h * 60 + m) * 60000000"
    by (simp add: mk_datetime_def mk_time_def)
  then show ?thesis by blast
qed

lemma reversed_window_seconds:
  assumes "strptime_HM a = Inr s" "strptime_HM b = Inr e" "e < s"
  shows "whole_seconds (e - s) \<le> - 60"
proof -
  from strptime_HM_form[OF assms(1)] obtain k where k: "s = 693596 * us_per_day + k * 60000000"
    by blast
  from strptime_HM_form[OF assms(2)] obtain l where l: "e = 693596 * us_per_day + l * 60000000"
    by blast
  from assms(3) k l have "l < k" by simp
  then have "l + 1 \<le> k" by simp
  then have "60 * 1000000 \<le> (k - l) * 60000000" by simp
  moreover have "s - e = (k - l) * 60000000" using k l by (simp add: algebra_simps)
  ultimately have "60 * 1000000 \<le> s - e" by simp
  then have "60 \<le> (s - e) div 1000000"
    using zdiv_mono1 [of "60 * 1000000" "s - e" 1000000] by simp
  then show ?thesis using assms(3) by (simp add: whole_seconds_def)
qed

lemma window_step_reversed:
  "between_times j = Some (s, e) \<Longrightarrow> whole_seconds (e - s) < 0 \<Longrightarrow>
   window_step E j w = (Some ValueError, j, w)"
  by (simp add: window_step_def randint_def)

lemma schedule_next_run_reversed:
  assumes "between_times j = Some (s, e)" "whole_seconds (e - s) < 0"
  shows "\<exists>err. fst (schedule_next_run E j w) = Some err"
proof (cases "unit j")
  case None
  then show ?thesis by (simp add: schedule_next_run_def)
next
  case (Some u)
  obtain st w1 where st: "(case start_run j of None \<Rightarrow> now E w | Some s \<Rightarrow> (s, w)) = (st, w1)"
    by (cases "(case start_run j of None \<Rightarrow> now E w | Some s \<Rightarrow> (s, w))") simp
  show ?thesis
  proof (cases "timedelta u (interval j)")
    case (Inl x)
    with Some st show ?thesis by (simp add: schedule_next_run_def)
  next
    case (Inr p)
    show ?thesis
    proof (cases "datetime_add st p")
      case (Inl x)
      with Some st Inr show ?thesis by (simp add: schedule_next_run_def)
    next
      case nr: (Inr nr)
      obtain r2 j2 w2 where ws:
        "weekday_step E u st (j\<lparr>period := Some p, next_run := Some nr\<rparr>) w1 = (r2, j2, w2)"
        by (cases "weekday_step E u st (j\<lparr>period := Some p, next_run := Some nr\<rparr>) w1") auto
      from weekday_step_frame[OF ws] assms(1) have "between_times j2 = Some (s, e)" by simp
      from window_step_reversed[OF this assms(2)]
      have "window_step E j2 w2 = (Some ValueError, j2, w2)" .
      with Some st Inr nr ws show ?thesis
        by (cases r2) (simp_all add: schedule_next_run_def)
    qed
  qed
qed

lemma schedule_next_run_reversed_plain:
  assumes "between_times j = Some (s, e)" "whole_seconds (e - s) < 0"
    "unit j = Some u" "run_days j = []" "start_run j = None"
    "timedelta u (interval j) = Inr p" "datetime_add (clock E (ticks w)) p = Inr nr"
  shows "fst (schedule_next_run E j w) = Some ValueError"
  using assms
  by (simp add: schedule_next_run_def now_def weekday_step_def window_step_def randint_def)

text \<open>
  C9. For a window string of two well-formed times with the end before the start,
  \<^verbatim>\<open>between\<close> returns the job with the pair stored. Any job that holds the pair then
  fails in every recomputation: the step of the window raises the \<^verbatim>\<open>ValueError\<close> of
  \<^verbatim>\<open>random.randint\<close> on the negative range, without a draw, so \<^verbatim>\<open>_schedule_next_run\<close>,
  \<^verbatim>\<open>do\<close> and \<^verbatim>\<open>run\<close> all raise: that error, unless an earlier step of theirs raises,
  and that error for a job with a unit, no weekdays and no start date whose baseline is
  within the range of \<^verbatim>\<open>datetime\<close>.
\<close>

theorem between_reversed_window:
  assumes "str_split (CHR ''-'') time_str = [a, b]"
    "strptime_HM a = Inr s" "strptime_HM b = Inr e" "e < s"
  shows "between time_str j = Inr (j\<lparr>between_times := Some (s, e)\<rparr>) \<and>
         window_step E (j'\<lparr>between_times := Some (s, e)\<rparr>) w
           = (Some ValueError, j'\<lparr>between_times := Some (s, e)\<rparr>, w) \<and>
         (\<exists>err. fst (schedule_next_run E (j'\<lparr>between_times := Some (s, e)\<rparr>) w) = Some err) \<and>
         (\<exists>err. fst (do E f (j'\<lparr>between_times := Some (s, e)\<rparr>) w) = Some err) \<and>
         (\<exists>err. fst (run E (j'\<lparr>between_times := Some (s, e)\<rparr>) w) = Some err) \<and>
         (unit j' = Some u \<and> run_days j' = [] \<and> start_run j' = None \<and>
          timedelta u (interval j') = Inr p \<and> datetime_add (clock E (ticks w)) p = Inr nr \<longrightarrow>
          fst (schedule_next_run E (j'\<lparr>between_times := Some (s, e)\<rparr>) w) = Some ValueError)"
proof -
  from reversed_window_seconds[OF assms(2,3,4)] have neg: "whole_seconds (e - s) < 0" by simp
  have 1: "between time_str j = Inr (j\<lparr>between_times := Some (s, e)\<rparr>)"
    using assms(1,2,3) by (simp add: between_def)
  have 2: "window_step E (j'\<lparr>between_times := Some (s, e)\<rparr>) w
           = (Some ValueError, j'\<lparr>between_times := Some (s, e)\<rparr>, w)"
    by (rule window_step_reversed[OF _ neg]) simp
  have 3: "\<exists>err. fst (schedule_next_run E jj ww) = Some err"
    if "between_times jj = Some (s, e)" for jj ww
    using that neg by (rule schedule_next_run_reversed)
  have 4: "\<exists>err. fst (do E f (j'\<lparr>between_times := Some (s, e)\<rparr>) w) = Some err"
    unfolding do_def by (rule 3) simp
  have 5: "\<exists>err. fst (run E (j'\<lparr>between_times := Some (s, e)\<rparr>) w) = Some err"
  proof (cases "job_func j'")
    case None
    then show ?thesis by (simp add: run_def)
  next
    case (Some g)
    show ?thesis
    proof (cases "outcome E g (calls j')")
      case None
      have "\<exists>err. fst (schedule_next_run E
               (j'\<lparr>between_times := Some (s, e), calls := Suc (calls j'),
                   last_run := Some (clock E (ticks w))\<rparr>) (w\<lparr>ticks := Suc (ticks w)\<rparr>)) = Some err"
        by (rule 3) simp
      with Some None show ?thesis by (simp add: run_def now_def)
    next
      case (Some x)
      with \<open>job_func j' = Some g\<close> show ?thesis by (simp add: run_def)
    qed
  qed
  have 6: "fst (schedule_next_run E (j'\<lparr>between_times := Some (s, e)\<rparr>) w) = Some ValueError"
    if "unit j' = Some u" "run_days j' = []" "start_run j' = None"
      "timedelta u (interval j') = Inr p" "datetime_add (clock E (ticks w)) p = Inr nr"
    by (rule schedule_next_run_reversed_plain[where s = s and e = e and u = u and p = p and nr = nr])
      (use that neg in simp_all)
  from 1 2 3[of "j'\<lparr>between_times := Some (s, e)\<rparr>" w] 4 5 6 show ?thesis by simp
qed


theorem between_reversed_window_witness:
  "str_split (CHR ''-'') ''10:00-09:00'' = [''10:00'', ''09:00''] \<and>
   strptime_HM ''10:00'' = Inr (mk_datetime 693596 (mk_time 10 0 0)) \<and>
   strptime_HM ''09:00'' = Inr (mk_datetime 693596 (mk_time 9 0 0)) \<and>
   mk_datetime 693596 (mk_time 9 0 0) < mk_datetime 693596 (mk_time 10 0 0) \<and>
   between ''10:00-09:00'' (Job 1)
     = Inr ((Job 1)\<lparr>between_times := Some (mk_datetime 693596 (mk_time 10 0 0),
                                            mk_datetime 693596 (mk_time 9 0 0))\<rparr>)"
proof -
  have a: "str_split (CHR ''-'') ''10:00-09:00'' = [''10:00'', ''09:00'']" by simp
  have b: "strptime_HM ''10:00'' = Inr (mk_datetime 693596 (mk_time 10 0 0))"
    by (simp add: strptime_HM_def is_digit_def digit_val_def)
  have c: "strptime_HM ''09:00'' = Inr (mk_datetime 693596 (mk_time 9 0 0))"
    by (simp add: strptime_HM_def is_digit_def digit_val_def)
  have d: "mk_datetime 693596 (mk_time 9 0 0) < mk_datetime 693596 (mk_time 10 0 0)"
    by (simp add: mk_datetime_def mk_time_def)
  from between_reversed_window [OF a b c d, of "Job 1" E_8am "Job 1" w0 0] a b c d
  show ?thesis by simp
qed

subsection \<open>A job without a work unit in the registry\<close>

lemma runnable_jobs_unconfigured:
  "\<exists>ij \<in> set ijs. next_run (snd ij) = None \<Longrightarrow>
   \<exists>w'. runnable_jobs E ijs w = (Inl TypeError, w')"
proof (induction ijs arbitrary: w)
  case Nil
  then show ?case by simp
next
  case (Cons ij rest)
  obtain i j where ij: "ij = (i, j)" by (cases ij)
  show ?case
  proof (cases "next_run j")
    case None
    then show ?thesis by (simp add: ij should_run_eq)
  next
    case (Some nr)
    with Cons.prems ij have "\<exists>ij \<in> set rest. next_run (snd ij) = None" by auto
    from Cons.IH[OF this] obtain w' where
      "runnable_jobs E rest (w\<lparr>ticks := Suc (ticks w)\<rparr>) = (Inl TypeError, w')" by blast
    with Some show ?thesis by (simp add: ij should_run_eq)
  qed
qed

lemma run_pending_unconfigured:
  assumes "j \<in> set jobs" "next_run j = None"
  shows "\<exists>w'. run_pending E jobs w = (Some TypeError, jobs, w')"
proof -
  have "map snd (zip [0..<length jobs] jobs) = jobs" by (simp add: map_snd_zip)
  then have "snd ` set (zip [0..<length jobs] jobs) = set jobs" by (metis set_map)
  with assms(1) have "j \<in> snd ` set (zip [0..<length jobs] jobs)" by simp
  then obtain ij where "ij \<in> set (zip [0..<length jobs] jobs)" "snd ij = j" by (auto simp del: set_zip)
  with assms(2) have "\<exists>ij \<in> set (zip [0..<length jobs] jobs). next_run (snd ij) = None" by auto
  from runnable_jobs_unconfigured[OF this] obtain w' where
    "runnable_jobs E (zip [0..<length jobs] jobs) w = (Inl TypeError, w')" by blast
  then show ?thesis by (simp add: run_pending_def)
qed

lemma run_all_unconfigured:
  "j \<in> set jobs \<Longrightarrow> job_func j = None \<Longrightarrow> \<exists>e. fst (run_all E d jobs w) = Some e"
proof (induction jobs arbitrary: w)
  case Nil
  then show ?case by simp
next
  case (Cons a rest)
  obtain r a' w1 where ra: "run E a w = (r, a', w1)" by (cases "run E a w") auto
  show ?case
  proof (cases r)
    case (Some e)
    with ra show ?thesis by simp
  next
    case None
    with ra have "job_func a \<noteq> None" by (auto simp: run_def split: option.splits)
    with Cons.prems have "j \<in> set rest" by auto
    from Cons.IH[OF this Cons.prems(2)] obtain e where "fst (run_all E d rest w1) = Some e"
      by blast
    with ra None show ?thesis by (cases "run_all E d rest w1") (auto)
  qed
qed

lemma min_job_unconfigured:
  "(next_run least = None \<and> rest \<noteq> []) \<or> (\<exists>j \<in> set rest. next_run j = None) \<Longrightarrow>
   min_job least rest = Inl TypeError"
proof (induction rest arbitrary: least)
  case Nil
  then show ?case by simp
next
  case (Cons item rest)
  show ?case
  proof (cases "next_run item = None \<or> next_run least = None")
    case True
    then show ?thesis by (auto simp: job_lt_def split: option.splits)
  next
    case False
    then obtain x y where xy: "next_run item = Some x" "next_run least = Some y" by auto
    with Cons.prems have "\<exists>j \<in> set rest. next_run j = None" by auto
    then have "min_job (if x < y then item else least) rest = Inl TypeError"
      by (intro Cons.IH) simp
    with xy show ?thesis by (simp add: job_lt_def)
  qed
qed

lemma Scheduler_next_run_unconfigured:
  assumes "j \<in> set jobs" "next_run j = None"
  shows "Scheduler_next_run jobs = (if length jobs = 1 then Inr None else Inl TypeError)"
proof (cases jobs)
  case Nil
  with assms show ?thesis by simp
next
  case (Cons first rest)
  show ?thesis
  proof (cases rest)
    case Nil
    with Cons assms show ?thesis by (simp add: Scheduler_next_run_def)
  next
    case (Cons b rest')
    with assms \<open>jobs = first # rest\<close>
    have "(next_run first = None \<and> rest \<noteq> []) \<or> (\<exists>j \<in> set rest. next_run j = None)"
      by auto
    from min_job_unconfigured[OF this] Cons \<open>jobs = first # rest\<close> show ?thesis
      by (simp add: Scheduler_next_run_def)
  qed
qed

lemma idle_seconds_unconfigured:
  assumes "j \<in> set jobs" "next_run j = None"
  shows "fst (idle_seconds E jobs w) = Inl TypeError"
  using Scheduler_next_run_unconfigured[OF assms]
  by (simp add: idle_seconds_def now_def split: if_splits)

text \<open>
  C10, as amended. With a job in the registry that has neither a \<^verbatim>\<open>next_run\<close> nor a work
  unit, \<^verbatim>\<open>run_pending\<close> raises \<^verbatim>\<open>TypeError\<close> before any job runs, \<^verbatim>\<open>run_all\<close> raises, and
  \<^verbatim>\<open>idle_seconds\<close> raises \<^verbatim>\<open>TypeError\<close>. The \<^verbatim>\<open>next_run\<close> query raises \<^verbatim>\<open>TypeError\<close>
  when the registry has another job besides, and returns \<^verbatim>\<open>None\<close> when that job is alone.
\<close>

theorem unconfigured_job_breaks_registry:
  assumes "j \<in> set jobs" "next_run j = None" "job_func j = None"
  shows "(\<exists>w'. run_pending E jobs w = (Some TypeError, jobs, w')) \<and>
         (\<exists>e. fst (run_all E d jobs w) = Some e) \<and>
         fst (idle_seconds E jobs w) = Inl TypeError \<and>
         Scheduler_next_run jobs = (if length jobs = 1 then Inr None else Inl TypeError)"
  using run_pending_unconfigured[OF assms(1,2)] run_all_unconfigured[OF assms(1,3)]
    idle_seconds_unconfigured[OF assms(1,2)] Scheduler_next_run_unconfigured[OF assms(1,2)]
  by blast


theorem unconfigured_job_breaks_registry_witness:
  "Job 1 \<in> set [Job 1, job_due] \<and> next_run (Job 1) = None \<and> job_func (Job 1) = None \<and>
   fst (idle_seconds E_8am [Job 1, job_due] w0) = Inl TypeError \<and>
   Scheduler_next_run [Job 1, job_due] = Inl TypeError"
proof -
  have a: "Job 1 \<in> set [Job 1, job_due]" by simp
  have b: "next_run (Job 1) = None" by (simp add: Job_def)
  have c: "job_func (Job 1) = None" by (simp add: Job_def)
  from unconfigured_job_breaks_registry [OF a b c, of E_8am w0 0] a b c
  show ?thesis by simp
qed

text \<open>
  C10 as stated fails for the \<^verbatim>\<open>next_run\<close> query: on the registry of one \<^verbatim>\<open>every(1)\<close>
  without \<^verbatim>\<open>do\<close>, \<^verbatim>\<open>min\<close> compares nothing and the query returns \<^verbatim>\<open>None\<close>.
\<close>

theorem next_run_of_single_unconfigured_job:
  "Scheduler_next_run (every 1 []) = Inr None"
  by (simp add: Scheduler_next_run_def every_def Job_def)

subsection \<open>Arithmetic of dates and times\<close>

lemma hms_recompose:
  "mk_time (time_hour t) (time_minute t) (time_second t) = t div 1000000 * 1000000"
proof -
  define q where "q = t div 1000000"
  have h: "t div 3600000000 = q div 60 div 60"
    using zdiv_zmult2_eq [of 3600 t 1000000] zdiv_zmult2_eq [of 60 q 60] by (simp add: q_def)
  have m: "t div 60000000 = q div 60"
    using zdiv_zmult2_eq [of 60 t 1000000] by (simp add: q_def)
  have "(q div 60 div 60 * 60 + q div 60 mod 60) * 60 + q mod 60 = q"
    by simp
  then show ?thesis
    by (simp add: mk_time_def time_hour_def time_minute_def time_second_def h m flip: q_def)
qed

lemma whole_second_range:
  "0 \<le> t \<Longrightarrow> t < us_per_day \<Longrightarrow>
   0 \<le> t div 1000000 * 1000000 \<and> t div 1000000 * 1000000 < us_per_day"
proof -
  assume a: "0 \<le> t" "t < us_per_day"
  have "t div 1000000 * 1000000 \<le> t" by (simp add: mult.commute)
  moreover have "0 \<le> t div 1000000" using a(1) by (simp add: pos_imp_zdiv_nonneg_iff)
  ultimately show ?thesis using a(2) by simp
qed

lemma date_mk_datetime: "0 \<le> t \<Longrightarrow> t < us_per_day \<Longrightarrow> date (mk_datetime d t) = d"
  by (simp add: date_def mk_datetime_def us_per_day_def)

lemma time_of_mk_datetime: "0 \<le> t \<Longrightarrow> t < us_per_day \<Longrightarrow> time_of (mk_datetime d t) = t"
  by (simp add: time_of_def mk_datetime_def us_per_day_def)

lemma time_of_range: "0 \<le> time_of d \<and> time_of d < us_per_day"
  by (simp add: time_of_def us_per_day_def)

lemma mk_datetime_date_time: "mk_datetime (date d) (time_of d) = d"
  by (simp add: mk_datetime_def date_def time_of_def)

lemma date_add_days: "date (d + n * us_per_day) = date d + n"
  by (simp add: date_def us_per_day_def)

lemma date_mono: "a \<le> b \<Longrightarrow> date a \<le> date b"
  by (simp add: date_def us_per_day_def zdiv_mono1)

lemma replace_hms_at:
  assumes "0 \<le> t" "t < us_per_day"
  shows "replace_hms nr (time_hour t) (time_minute t) (time_second t)
           = mk_datetime (date nr) (t div 1000000 * 1000000)"
  by (simp add: replace_hms_def hms_recompose)

lemma mk_datetime_back_one_day:
  "mk_datetime d t + - us_per_day = mk_datetime (d - 1) t"
  by (simp add: mk_datetime_def algebra_simps)

subsection \<open>The steps of a recomputation without weekdays\<close>

text \<open>
  On a window in order the draw succeeds, and the time it gives is inside the window.
\<close>

lemma window_step_in_order:
  assumes "between_times j = Some (s, e)" "date s = 693596" "date e = 693596" "s \<le> e"
  shows "\<exists>t. window_step E j w = (None, j\<lparr>at_time := Some t\<rparr>, w\<lparr>draws := Suc (draws w)\<rparr>) \<and>
             time_of s \<le> t \<and> t \<le> time_of e \<and> 0 \<le> t \<and> t < us_per_day"
proof -
  define n where "n = whole_seconds (e - s)"
  define k where "k = int (rnd E (draws w)) mod (n + 1)"
  have n0: "0 \<le> n" using assms(4) by (simp add: n_def whole_seconds_def pos_imp_zdiv_nonneg_iff)
  have nle: "n * 1000000 \<le> e - s"
    using assms(4) by (simp add: n_def whole_seconds_def mult.commute)
  have k0: "0 \<le> k" using n0 by (simp add: k_def)
  have "k < n + 1" unfolding k_def using n0 by (intro pos_mod_bound) simp
  then have kn: "k \<le> n" by simp
  have ri: "randint E 0 n w = (Inr k, w\<lparr>draws := Suc (draws w)\<rparr>)"
    using n0 by (simp add: randint_def k_def)
  have se: "s \<le> s + k * 1000000" "s + k * 1000000 \<le> e"
    using k0 kn nle by simp_all
  from date_mono[OF se(1)] date_mono[OF se(2)] assms(2,3)
  have dr: "date (s + k * 1000000) = 693596" by simp
  have span: "e - s < us_per_day"
  proof -
    have "e = mk_datetime (date e) (time_of e)" "s = mk_datetime (date s) (time_of s)"
      by (simp_all add: mk_datetime_date_time)
    then have "e - s = time_of e - time_of s"
      using assms(2,3) by (simp add: mk_datetime_def)
    with time_of_range[of e] time_of_range[of s] show ?thesis by simp
  qed
  have "k * 1000000 < us_per_day" using se(2) span by simp
  then have kd: "k * 1000000 div us_per_day = 0"
    using k0 by (simp add: us_per_day_def)
  have td: "timedelta Seconds k = Inr (k * 1000000)"
    using kd by (simp add: timedelta_def)
  have da: "datetime_add s (k * 1000000) = Inr (s + k * 1000000)"
    using dr by (simp add: datetime_add_def)
  have ws: "window_step E j w
      = (None, j\<lparr>at_time := Some (time_of (s + k * 1000000))\<rparr>, w\<lparr>draws := Suc (draws w)\<rparr>)"
    using assms(1) ri td da by (simp add: window_step_def flip: n_def)
  have tt: "time_of x = x - 693596 * us_per_day" if "date x = 693596" for x
    using mk_datetime_date_time[of x] that by (simp add: mk_datetime_def)
  have "time_of s \<le> time_of (s + k * 1000000)" "time_of (s + k * 1000000) \<le> time_of e"
    using se tt[OF dr] tt[OF assms(2)] tt[OF assms(3)] by simp_all
  with ws time_of_range[of "s + k * 1000000"] show ?thesis by blast
qed


lemma datetime_add_value: "datetime_add d td = Inr r \<Longrightarrow> r = d + td"
  by (auto simp: datetime_add_def Let_def split: if_splits)

lemma datetime_add_range:
  "datetime_add d td = Inr r \<Longrightarrow> 1 \<le> date r" "datetime_add d td = Inr r \<Longrightarrow> date r \<le> 3652059"
  by (auto simp: datetime_add_def Let_def split: if_splits)

lemma window_step_resolved:
  assumes "wf_job j" "window_in_order j"
  shows "\<exists>j3 w3. window_step E j w = (None, j3, w3) \<and> ticks w3 = ticks w \<and>
           next_run j3 = next_run j \<and> last_run j3 = last_run j \<and> run_days j3 = run_days j \<and>
           (between_times j = None \<longrightarrow> at_time j3 = at_time j) \<and>
           (between_times j \<noteq> None \<longrightarrow> at_time j3 \<noteq> None) \<and>
           (\<forall>t. at_time j3 = Some t \<longrightarrow> 0 \<le> t \<and> t < us_per_day)"
proof (cases "between_times j")
  case None
  with assms(1) show ?thesis by (auto simp: window_step_def wf_job_def split: option.splits)
next
  case (Some se)
  obtain s e where se: "se = (s, e)" by (cases se)
  from assms Some se have "date s = 693596" "date e = 693596" "s \<le> e"
    by (simp_all add: wf_job_def window_in_order_def)
  from window_step_in_order[OF Some[unfolded se] this, of E w] obtain t where
    "window_step E j w = (None, j\<lparr>at_time := Some t\<rparr>, w\<lparr>draws := Suc (draws w)\<rparr>)"
    "0 \<le> t" "t < us_per_day" by blast
  with Some show ?thesis by simp
qed

lemma schedule_next_run_plain:
  assumes "unit j = Some u" "run_days j = []" "wf_job j" "window_in_order j"
    "timedelta u (interval j) = Inr p"
    "datetime_add (case start_run j of None \<Rightarrow> clock E (ticks w) | Some s \<Rightarrow> s) p = Inr b"
  shows "\<exists>j3 w3. schedule_next_run E j w = at_time_step E b j3 w3 \<and>
           ticks w3 = (case start_run j of None \<Rightarrow> Suc (ticks w) | Some s \<Rightarrow> ticks w) \<and>
           next_run j3 = Some b \<and> last_run j3 = last_run j \<and> run_days j3 = [] \<and>
           (between_times j = None \<longrightarrow> at_time j3 = at_time j) \<and>
           (between_times j \<noteq> None \<longrightarrow> at_time j3 \<noteq> None) \<and>
           (\<forall>t. at_time j3 = Some t \<longrightarrow> 0 \<le> t \<and> t < us_per_day)"
proof -
  define w1 where "w1 = (case start_run j of None \<Rightarrow> w\<lparr>ticks := Suc (ticks w)\<rparr> | Some s \<Rightarrow> w)"
  define st where "st = (case start_run j of None \<Rightarrow> clock E (ticks w) | Some s \<Rightarrow> s)"
  let ?j1 = "j\<lparr>period := Some p, next_run := Some b\<rparr>"
  have st: "(case start_run j of None \<Rightarrow> now E w | Some s \<Rightarrow> (s, w)) = (st, w1)"
    by (simp add: st_def w1_def now_def split: option.splits)
  have wd: "weekday_step E u st ?j1 w1 = (None, ?j1, w1)"
    using assms(2) by (simp add: weekday_step_def)
  have wf1: "wf_job ?j1" "window_in_order ?j1"
    using assms(3,4) by (simp_all add: wf_job_def window_in_order_def)
  from window_step_resolved[OF wf1, of E w1] obtain j3 w3 where
    ws: "window_step E ?j1 w1 = (None, j3, w3)" and
    props: "ticks w3 = ticks w1" "next_run j3 = next_run ?j1" "last_run j3 = last_run ?j1"
      "run_days j3 = run_days ?j1"
      "between_times ?j1 = None \<longrightarrow> at_time j3 = at_time ?j1"
      "between_times ?j1 \<noteq> None \<longrightarrow> at_time j3 \<noteq> None"
      "\<forall>t. at_time j3 = Some t \<longrightarrow> 0 \<le> t \<and> t < us_per_day"
    by (elim exE conjE) (rule that, assumption+)
  have eq: "schedule_next_run E j w = at_time_step E b j3 w3"
    using assms(1,5) assms(6)[folded st_def] st wd ws props(2)
    by (simp add: schedule_next_run_def)
  have "ticks w1 = (case start_run j of None \<Rightarrow> Suc (ticks w) | Some s \<Rightarrow> ticks w)"
    by (simp add: w1_def split: option.splits)
  with props(1) have tk:
    "ticks w3 = (case start_run j of None \<Rightarrow> Suc (ticks w) | Some s \<Rightarrow> ticks w)"
    by simp
  show ?thesis
    by (rule exI[of _ j3], rule exI[of _ w3]) (use eq tk props assms(2) in simp)
qed

lemmas eval_defs = schedule_next_run_def weekday_step_def window_step_def at_time_step_def
  timedelta_def datetime_add_def date_def time_of_def mk_datetime_def mk_time_def us_per_day_def
  now_def replace_hms_def time_hour_def time_minute_def time_second_def Job_def
  monday_8am_def E_8am_def w0_def

subsection \<open>The next run of a daily job that ran today\<close>

text \<open>
  Without a start date the next run of a daily job is after today. For a job with the unit
  \<^verbatim>\<open>days\<close>, an interval of at least 1, no weekdays and no start date, whose last run is
  on the date of the clock reading of the recomputation, \<^verbatim>\<open>_schedule_next_run\<close> returns
  (given a window in order, if there is one, and a result within the range of
  \<^verbatim>\<open>datetime\<close>) with a \<^verbatim>\<open>next_run\<close> on today's date plus the interval.
\<close>

lemma daily_job_next_run_after_today:
  assumes "unit j = Some Days" "run_days j = []" "last_run j = Some lr" "start_run j = None"
    "date lr = date (clock E (ticks w))" "1 \<le> interval j"
    "wf_job j" "window_in_order j"
    "1 \<le> date (clock E (ticks w))" "date (clock E (ticks w)) + interval j \<le> 3652059"
  shows "\<exists>j' w' nr. schedule_next_run E j w = (None, j', w') \<and> next_run j' = Some nr \<and>
           date nr = date (clock E (ticks w)) + interval j \<and>
           date (clock E (ticks w)) < date nr \<and> date lr < date nr"
proof -
  let ?now = "clock E (ticks w)"
  have td: "timedelta Days (interval j) = Inr (interval j * us_per_day)"
    using assms(6,9,10) by (simp add: timedelta_def us_per_day_def)
  have db: "date (?now + interval j * us_per_day) = date ?now + interval j"
    by (rule date_add_days)
  have da: "datetime_add (case start_run j of None \<Rightarrow> ?now | Some s \<Rightarrow> s)
              (interval j * us_per_day) = Inr (?now + interval j * us_per_day)"
    using assms(4,6,9,10) db by (simp add: datetime_add_def)
  from schedule_next_run_plain[OF assms(1,2,7,8) td da] obtain j3 w3 where
    eq: "schedule_next_run E j w = at_time_step E (?now + interval j * us_per_day) j3 w3" and
    props: "next_run j3 = Some (?now + interval j * us_per_day)" "last_run j3 = last_run j"
      "\<forall>t. at_time j3 = Some t \<longrightarrow> 0 \<le> t \<and> t < us_per_day"
    by (elim exE conjE) (rule that, assumption+)
  show ?thesis
  proof (cases "at_time j3")
    case None
    then have "at_time_step E (?now + interval j * us_per_day) j3 w3 = (None, j3, w3)"
      by (simp add: at_time_step_def)
    with eq props(1) db assms(5,6) show ?thesis by simp
  next
    case (Some t)
    with props(3) have t: "0 \<le> t" "t < us_per_day" by simp_all
    let ?nr = "mk_datetime (date ?now + interval j) (t div 1000000 * 1000000)"
    have "at_time_step E (?now + interval j * us_per_day) j3 w3
            = (None, j3\<lparr>next_run := Some ?nr\<rparr>, w3)"
      using Some props(2) assms(3) replace_hms_at[OF t] db
      by (simp add: at_time_step_def)
    moreover have "date ?nr = date ?now + interval j"
      using whole_second_range[OF t] by (simp add: date_mk_datetime)
    ultimately show ?thesis using eq assms(5,6) by simp
  qed
qed

lemma daily_job_next_run_after_today_example:
  "unit job_daily_ran_today = Some Days \<and> run_days job_daily_ran_today = [] \<and>
   last_run job_daily_ran_today = Some monday_8am \<and> start_run job_daily_ran_today = None \<and>
   date monday_8am = date (clock E_8am (ticks w0)) \<and> 1 \<le> interval job_daily_ran_today \<and>
   wf_job job_daily_ran_today \<and> window_in_order job_daily_ran_today \<and>
   1 \<le> date (clock E_8am (ticks w0)) \<and>
   date (clock E_8am (ticks w0)) + interval job_daily_ran_today \<le> 3652059 \<and>
   (\<exists>j' w' nr. schedule_next_run E_8am job_daily_ran_today w0 = (None, j', w') \<and>
       next_run j' = Some nr \<and> date nr = 739041)"
proof -
  have a: "unit job_daily_ran_today = Some Days" "run_days job_daily_ran_today = []"
    "last_run job_daily_ran_today = Some monday_8am" "start_run job_daily_ran_today = None"
    by (simp_all add: job_daily_ran_today_def Job_def)
  have d: "date (clock E_8am (ticks w0)) = 739040" "date monday_8am = 739040"
    by (simp_all add: E_8am_def monday_8am_def date_def mk_datetime_def mk_time_def us_per_day_def)
  have b: "date monday_8am = date (clock E_8am (ticks w0))" using d by simp
  have c: "1 \<le> interval job_daily_ran_today" "wf_job job_daily_ran_today"
    "window_in_order job_daily_ran_today"
    by (simp_all add: job_daily_ran_today_def Job_def wf_job_def window_in_order_def)
  have e: "1 \<le> date (clock E_8am (ticks w0))"
    "date (clock E_8am (ticks w0)) + interval job_daily_ran_today \<le> 3652059"
    using d by (simp_all add: job_daily_ran_today_def Job_def)
  have i: "interval job_daily_ran_today = 1" by (simp add: job_daily_ran_today_def Job_def)
  from daily_job_next_run_after_today [OF a b c(1) c(2) c(3) e]
  have "\<exists>j' w' nr. schedule_next_run E_8am job_daily_ran_today w0 = (None, j', w') \<and>
       next_run j' = Some nr \<and> date nr = 739041"
    unfolding d i by auto
  with a b c e show ?thesis by simp
qed

text \<open>
  With a start date every recomputation starts from \<^verbatim>\<open>start_run\<close>, not from the clock and
  not from the last run: for a job without weekdays, time of day and window the next run is
  the start date plus the period, whatever the clock reads and whenever the job last ran.
\<close>

lemma start_date_next_run_constant:
  assumes "unit j = Some u" "run_days j = []" "start_run j = Some s"
    "at_time j = None" "between_times j = None"
    "timedelta u (interval j) = Inr p" "datetime_add s p = Inr b"
  shows "schedule_next_run E j w = (None, j\<lparr>period := Some p, next_run := Some b\<rparr>, w)"
  using assms
  by (simp add: schedule_next_run_def weekday_step_def window_step_def at_time_step_def)

text \<open>
  C2. A daily job that last ran today must get a next run after today, with a start date
  too. It does not: the daily job started on Sunday 2024-06-02 that ran on Monday
  2024-06-03 at 08:00 gets that Monday at 00:00 as its next run, which is today's date and
  already past, so the job is due again at once.
\<close>

theorem next_run_today_with_start_date:
  "unit job_started_sunday = Some Days \<and> run_days job_started_sunday = [] \<and>
   last_run job_started_sunday = Some monday_8am \<and>
   date monday_8am = date (clock E_8am (ticks w0)) \<and>
   schedule_next_run E_8am job_started_sunday w0
     = (None, job_started_sunday\<lparr>period := Some 86400000000,
                                   next_run := Some (mk_datetime 739040 0)\<rparr>, w0) \<and>
   date (mk_datetime 739040 0) = date (clock E_8am (ticks w0))"
  by (simp add: job_started_sunday_def eval_defs)

lemma starting_example: "starting ''2024-06-02'' (Job 1) = Inr ((Job 1)\<lparr>start_run := Some (mk_datetime 739039 0)\<rparr>)"
  by code_simp

subsection \<open>The first run at a time of day\<close>

text \<open>
  Lines 336 to 345 on a first run without weekdays: the time of day is put on the baseline,
  the start date or the clock plus the period, and one day is subtracted when that time is
  later than the time of the clock reading of line 344.
\<close>

lemma first_run_shift:
  assumes "unit j = Some u" "last_run j = None" "run_days j = []"
    "wf_job j" "window_in_order j"
    "at_time j \<noteq> None \<or> between_times j \<noteq> None"
    "timedelta u (interval j) = Inr p"
    "datetime_add (case start_run j of None \<Rightarrow> clock E (ticks w) | Some s \<Rightarrow> s) p = Inr b"
    "1 < date b"
    "now2 = clock E (case start_run j of None \<Rightarrow> Suc (ticks w) | Some s \<Rightarrow> ticks w)"
  shows "\<exists>j' w' t. schedule_next_run E j w = (None, j', w') \<and> at_time j' = Some t \<and>
           (between_times j = None \<longrightarrow> at_time j = Some t) \<and>
           next_run j' = Some (mk_datetime (if time_of now2 < t then date b - 1 else date b)
                                           (t div 1000000 * 1000000)) \<and>
           (u = Days \<and> interval j = 1 \<longrightarrow>
              date b = date (case start_run j of None \<Rightarrow> clock E (ticks w) | Some s \<Rightarrow> s) + 1)"
proof -
  from schedule_next_run_plain[OF assms(1,3,4,5,7,8)] obtain j3 w3 where
    eq: "schedule_next_run E j w = at_time_step E b j3 w3" and
    tk: "ticks w3 = (case start_run j of None \<Rightarrow> Suc (ticks w) | Some s \<Rightarrow> ticks w)" and
    props: "next_run j3 = Some b" "last_run j3 = last_run j" "run_days j3 = []"
      "between_times j = None \<longrightarrow> at_time j3 = at_time j"
      "between_times j \<noteq> None \<longrightarrow> at_time j3 \<noteq> None"
      "\<forall>t. at_time j3 = Some t \<longrightarrow> 0 \<le> t \<and> t < us_per_day"
    by (elim exE conjE) (rule that, assumption+)
  from assms(6) props(4,5) obtain t where at3: "at_time j3 = Some t" by (cases "at_time j3") auto
  with props(6) have t: "0 \<le> t" "t < us_per_day" by simp_all
  let ?tt = "t div 1000000 * 1000000"
  have n2: "now E w3 = (now2, w3\<lparr>ticks := Suc (ticks w3)\<rparr>)"
    by (simp add: now_def tk assms(10))
  note rb = datetime_add_range[OF assms(8)]
  have shifted: "datetime_add (mk_datetime (date b) ?tt) (- us_per_day)
                = Inr (mk_datetime (date b - 1) ?tt)"
  proof -
    have "date (mk_datetime (date b - 1) ?tt) = date b - 1"
      using whole_second_range[OF t] by (simp add: date_mk_datetime)
    then show ?thesis
      unfolding datetime_add_def Let_def mk_datetime_back_one_day
      using rb assms(9) by simp
  qed
  have step: "at_time_step E b j3 w3
      = (None, j3\<lparr>next_run := Some (mk_datetime (if time_of now2 < t then date b - 1 else date b) ?tt)\<rparr>,
         w3\<lparr>ticks := Suc (ticks w3)\<rparr>)"
    using at3 props(2,3) assms(2) n2 shifted replace_hms_at[OF t]
    by (simp add: at_time_step_def)
  have special: "u = Days \<and> interval j = 1 \<longrightarrow>
              date b = date (case start_run j of None \<Rightarrow> clock E (ticks w) | Some s \<Rightarrow> s) + 1"
  proof (intro impI, elim conjE)
    assume a: "u = Days" "interval j = 1"
    with assms(7) have "p = 1 * us_per_day" by (simp add: timedelta_def us_per_day_def)
    with datetime_add_value[OF assms(8)]
    have "b = (case start_run j of None \<Rightarrow> clock E (ticks w) | Some s \<Rightarrow> s) + 1 * us_per_day"
      by simp
    then show "date b = date (case start_run j of None \<Rightarrow> clock E (ticks w) | Some s \<Rightarrow> s) + 1"
      by (simp only: date_add_days)
  qed
  from eq step at3 props(4) special show ?thesis by (auto)
qed

text \<open>
  C3, as amended. For a job without a previous run and without weekdays, with a time of
  day \<open>t\<close> resolved (\<^verbatim>\<open>at_time\<close> as configured, or drawn from the window), the
  recomputation returns, given a window in order and a baseline (the start date or the
  clock, plus the period) within the range of \<^verbatim>\<open>datetime\<close> and not on its first day. When
  \<open>t\<close> is not later than the time of the clock reading of line 344, \<^verbatim>\<open>next_run\<close> is at
  \<open>t\<close>, cut to whole seconds, on the baseline's date. When \<open>t\<close> is later and the job has
  the unit \<^verbatim>\<open>days\<close> and the interval 1, \<^verbatim>\<open>next_run\<close> is at \<open>t\<close> on the date of the start
  date, or on today's date when there is no start date. Nothing is said of a later \<open>t\<close>
  with another unit or interval.
\<close>

theorem first_run_at_time:
  assumes "unit j = Some u" "last_run j = None" "run_days j = []"
    "wf_job j" "window_in_order j"
    "at_time j \<noteq> None \<or> between_times j \<noteq> None"
    "timedelta u (interval j) = Inr p"
    "datetime_add (case start_run j of None \<Rightarrow> clock E (ticks w) | Some s \<Rightarrow> s) p = Inr b"
    "1 < date b"
    "now2 = clock E (case start_run j of None \<Rightarrow> Suc (ticks w) | Some s \<Rightarrow> ticks w)"
  shows "\<exists>j' w' t. schedule_next_run E j w = (None, j', w') \<and> at_time j' = Some t \<and>
           (between_times j = None \<longrightarrow> at_time j = Some t) \<and>
           (\<not> time_of now2 < t \<longrightarrow>
              next_run j' = Some (mk_datetime (date b) (t div 1000000 * 1000000))) \<and>
           (time_of now2 < t \<and> u = Days \<and> interval j = 1 \<longrightarrow>
              next_run j' =
                Some (mk_datetime
                        (date (case start_run j of None \<Rightarrow> clock E (ticks w) | Some s \<Rightarrow> s))
                        (t div 1000000 * 1000000)))"
proof -
  from first_run_shift [OF assms] obtain j' w' t where
    r: "schedule_next_run E j w = (None, j', w')" "at_time j' = Some t"
      "between_times j = None \<longrightarrow> at_time j = Some t"
      "next_run j' = Some (mk_datetime (if time_of now2 < t then date b - 1 else date b)
                                      (t div 1000000 * 1000000))"
      "u = Days \<and> interval j = 1 \<longrightarrow>
         date b = date (case start_run j of None \<Rightarrow> clock E (ticks w) | Some s \<Rightarrow> s) + 1"
    by (elim exE conjE) (rule that, assumption+)
  have a: "\<not> time_of now2 < t \<longrightarrow>
             next_run j' = Some (mk_datetime (date b) (t div 1000000 * 1000000))"
    using r(4) by simp
  have b: "time_of now2 < t \<and> u = Days \<and> interval j = 1 \<longrightarrow>
             next_run j' =
               Some (mk_datetime
                       (date (case start_run j of None \<Rightarrow> clock E (ticks w) | Some s \<Rightarrow> s))
                       (t div 1000000 * 1000000))"
    using r(4,5) by simp
  show ?thesis
    by (rule exI[of _ j'], rule exI[of _ w'], rule exI[of _ t]) (use r(1,2,3) a b in simp)
qed

theorem first_run_at_time_witness:
  "unit job_at_2359 = Some Days \<and> last_run job_at_2359 = None \<and> run_days job_at_2359 = [] \<and>
   at_time job_at_2359 = Some (mk_time 23 59 0) \<and>
   time_of (clock E_8am 1) < mk_time 23 59 0 \<and>
   (\<exists>j' w'. schedule_next_run E_8am job_at_2359 w0 = (None, j', w') \<and>
      next_run j' = Some (mk_datetime 739040 (mk_time 23 59 0)))"
proof -
  have a: "unit job_at_2359 = Some Days" "last_run job_at_2359 = None" "run_days job_at_2359 = []"
    "wf_job job_at_2359" "window_in_order job_at_2359"
    "at_time job_at_2359 \<noteq> None \<or> between_times job_at_2359 \<noteq> None"
    by (simp_all add: job_at_2359_def Job_def wf_job_def window_in_order_def mk_time_def us_per_day_def)
  have p: "timedelta Days (interval job_at_2359) = Inr us_per_day"
    by (simp add: timedelta_def job_at_2359_def Job_def us_per_day_def)
  have b: "datetime_add (case start_run job_at_2359 of None \<Rightarrow> clock E_8am (ticks w0) | Some s \<Rightarrow> s)
             us_per_day = Inr (mk_datetime 739041 (mk_time 8 0 0))"
    by (simp add: job_at_2359_def eval_defs)
  have c: "1 < date (mk_datetime 739041 (mk_time 8 0 0))"
    by (simp add: eval_defs)
  have n: "monday_8am = clock E_8am (case start_run job_at_2359 of None \<Rightarrow> Suc (ticks w0) | Some s \<Rightarrow> ticks w0)"
    by (simp add: E_8am_def)
  have at0: "at_time job_at_2359 = Some (mk_time 23 59 0)" "between_times job_at_2359 = None"
    by (simp_all add: job_at_2359_def Job_def)
  have t: "time_of (clock E_8am 1) < mk_time 23 59 0" "time_of monday_8am < mk_time 23 59 0"
    "date (case start_run job_at_2359 of None \<Rightarrow> clock E_8am (ticks w0) | Some s \<Rightarrow> s) = 739040"
    "mk_time 23 59 0 div 1000000 * 1000000 = mk_time 23 59 0"
    "interval job_at_2359 = 1"
    by (simp_all add: job_at_2359_def eval_defs)
  from first_run_at_time [OF a p b c n] at0 t
  have "\<exists>j' w'. schedule_next_run E_8am job_at_2359 w0 = (None, j', w') \<and>
      next_run j' = Some (mk_datetime 739040 (mk_time 23 59 0))"
    by auto
  with a at0 t show ?thesis by simp
qed

text \<open>
  C3 as stated fails with a start date: \<^verbatim>\<open>every().day.at('23:59').starting('2024-07-01')\<close>
  scheduled at 08:00 on 2024-06-03 gets its next run on 2024-07-01 at 23:59, a day before
  the baseline and not today.
\<close>

theorem first_run_not_today_with_start_date:
  "last_run job_start_july = None \<and> run_days job_start_july = [] \<and>
   at_time job_start_july = Some (mk_time 23 59 0) \<and>
   time_of (clock E_8am 0) < mk_time 23 59 0 \<and>
   date (clock E_8am 0) = 739040 \<and>
   schedule_next_run E_8am job_start_july w0
     = (None, job_start_july\<lparr>period := Some 86400000000,
                               next_run := Some (mk_datetime 739068 (mk_time 23 59 0))\<rparr>,
        w0\<lparr>ticks := 1\<rparr>)"
  by (simp add: job_start_july_def eval_defs)

end
